theory Spec2Isabelle
  imports Complex_Main "HOL-Library.Sublist"
begin

section \<open>The voice manager (src/voice\_manager.py)\<close>

text \<open>
  The program is a Discord bot. \<open>VoiceManager\<close> keeps, per guild, an \<open>asyncio.Queue\<close> of
  audio items and a background task \<open>_process_audio_queue\<close> that drains it onto the
  guild's voice connection. The embedding is a state machine over one record that holds
  the manager's two dictionaries, the part of the bot and of the Discord library the
  manager reads (the guild's voice client, the text-channel bindings), a heap for the
  queue and voice-client objects (the worker keeps references to both across its
  suspension points), the tasks of the event loop, a clock, and the log of
  \<open>voice_client.play\<close> calls (each with the guild of the worker that made it).
\<close>

type_synonym guild_id = nat
type_synonym channel_id = nat
type_synonym queue_ref = nat
type_synonym vc_ref = nat

text \<open>\<open>audio_item = {'data': audio_data, 'source': username}\<close>; the data are bytes.\<close>

record audio_item =
  item_data :: "nat list"
  item_source :: string

text \<open>A \<open>discord.VoiceChannel\<close>: its id and the guild it belongs to.\<close>

record channel =
  ch_id :: channel_id
  ch_guild :: guild_id

text \<open>
  A \<open>discord.VoiceClient\<close> object: \<open>channel.id\<close>, \<open>is_connected()\<close>, \<open>is_playing()\<close>.
\<close>

record voice_client =
  vc_channel :: channel_id
  vc_connected :: bool
  vc_playing :: bool

text \<open>
  Where a worker task stands. Every constructor but \<open>Exited\<close> is a suspension point of
  \<open>_process_audio_queue\<close> (or the loop head, for a task that was created and has not run
  yet); the rational numbers are the times at which a timeout or a sleep ends.
\<close>

datatype pc =
    LoopHead
  | WaitGet queue_ref rat
  | GraceSleep rat
  | BackoffSleep rat
  | PollPlaying vc_ref audio_item rat
  | AwaitPlayback vc_ref rat bool
  | ErrorSleep rat
  | Exited

record worker =
  w_guild :: guild_id
  w_pc :: pc

record vm_state =
  audio_queue :: "guild_id \<rightharpoonup> queue_ref"
  playing :: "guild_id \<rightharpoonup> bool"
  voice_text_channels :: "guild_id \<rightharpoonup> channel_id"
  guilds :: "guild_id \<Rightarrow> bool"
  guild_voice :: "guild_id \<rightharpoonup> vc_ref"
  queue_heap :: "queue_ref \<Rightarrow> audio_item list"
  next_queue :: queue_ref
  vc_heap :: "vc_ref \<Rightarrow> voice_client"
  next_vc :: vc_ref
  tasks :: "worker list"
  now :: rat
  played :: "(guild_id \<times> audio_item) list"

text \<open>Exceptions that leave \<open>leave_channel\<close>: a failed Discord call, or a \<open>KeyError\<close>.\<close>

datatype exn = DiscordError | KeyError

subsection \<open>The Discord library, as far as the manager uses it\<close>

text \<open>\<open>voice_client and voice_client.is_connected()\<close>, for the guild's voice client.\<close>

definition connected_client :: "vm_state \<Rightarrow> guild_id \<Rightarrow> vc_ref option" where
  "connected_client s g =
     (case guild_voice s g of
        None \<Rightarrow> None
      | Some v \<Rightarrow> if vc_connected (vc_heap s v) then Some v else None)"

text \<open>
  The player of a voice client stops (the clip ended, \<open>stop()\<close> was called, or the
  client disconnected): \<open>is_playing()\<close> turns false and the \<open>after\<close> callback sets the
  \<open>playback_done\<close> event of the worker that waits on this client.
\<close>

fun mark_done :: "vc_ref \<Rightarrow> worker \<Rightarrow> worker" where
  "mark_done v w =
     (case w_pc w of
        AwaitPlayback v' t d \<Rightarrow> if v' = v then w\<lparr>w_pc := AwaitPlayback v' t True\<rparr> else w
      | _ \<Rightarrow> w)"

definition end_playback :: "vc_ref \<Rightarrow> vm_state \<Rightarrow> vm_state" where
  "end_playback v s =
     (if vc_playing (vc_heap s v)
      then s\<lparr>vc_heap := (vc_heap s)(v := (vc_heap s v)\<lparr>vc_playing := False\<rparr>),
             tasks := map (mark_done v) (tasks s)\<rparr>
      else s)"

text \<open>\<open>await channel.connect()\<close>, when it succeeds: a new voice client, registered for the guild.\<close>

definition connect :: "channel \<Rightarrow> vm_state \<Rightarrow> vc_ref \<times> vm_state" where
  "connect c s =
     (next_vc s,
      s\<lparr>vc_heap := (vc_heap s)(next_vc s :=
             \<lparr>vc_channel = ch_id c, vc_connected = True, vc_playing = False\<rparr>),
        guild_voice := (guild_voice s)(ch_guild c \<mapsto> next_vc s),
        next_vc := Suc (next_vc s)\<rparr>)"

text \<open>\<open>await voice_client.move_to(channel)\<close>, when it succeeds.\<close>

definition move_to :: "vc_ref \<Rightarrow> channel \<Rightarrow> vm_state \<Rightarrow> vm_state" where
  "move_to v c s = s\<lparr>vc_heap := (vc_heap s)(v := (vc_heap s v)\<lparr>vc_channel := ch_id c\<rparr>)\<rparr>"

text \<open>
  \<open>await voice_client.disconnect()\<close>, when it succeeds: the player stops, the client is
  no longer connected and the guild has no voice client any more.
\<close>

definition disconnect :: "guild_id \<Rightarrow> vc_ref \<Rightarrow> vm_state \<Rightarrow> vm_state" where
  "disconnect g v s =
     (let s1 = end_playback v s
      in s1\<lparr>vc_heap := (vc_heap s1)(v := (vc_heap s1 v)\<lparr>vc_connected := False\<rparr>),
            guild_voice := (guild_voice s1)(g := None)\<rparr>)"

subsection \<open>\<open>join_channel\<close>, \<open>leave_channel\<close>, \<open>play_audio\<close>\<close>

text \<open>\<open>self.audio_queue[guild.id] = asyncio.Queue(); self.playing[guild.id] = False\<close>\<close>

definition init_queue :: "guild_id \<Rightarrow> vm_state \<Rightarrow> vm_state" where
  "init_queue g s =
     s\<lparr>audio_queue := (audio_queue s)(g \<mapsto> next_queue s),
       playing := (playing s)(g \<mapsto> False),
       queue_heap := (queue_heap s)(next_queue s := []),
       next_queue := Suc (next_queue s)\<rparr>"

text \<open>\<open>asyncio.create_task(self._process_audio_queue(guild.id))\<close>\<close>

definition create_task :: "guild_id \<Rightarrow> vm_state \<Rightarrow> vm_state" where
  "create_task g s = s\<lparr>tasks := tasks s @ [\<lparr>w_guild = g, w_pc = LoopHead\<rparr>]\<rparr>"

text \<open>
  \<open>join_channel(channel)\<close>. The flag \<open>ok\<close> says whether the one Discord call the
  invocation makes (\<open>move_to\<close> or \<open>connect\<close>) returns; when it raises, the
  \<open>except\<close> clause logs and returns \<open>None\<close>.
\<close>

definition join_channel :: "channel \<Rightarrow> bool \<Rightarrow> vm_state \<Rightarrow> vc_ref option \<times> vm_state" where
  "join_channel c ok s =
     (let g = ch_guild c in
      case connected_client s g of
        Some v \<Rightarrow>
          if vc_channel (vc_heap s v) = ch_id c then (Some v, s)
          else if ok then (Some v, move_to v c s)
          else (None, s)
      | None \<Rightarrow>
          if ok then
            (let (v, s1) = connect c s;
                 s2 = (if audio_queue s1 g = None then init_queue g s1 else s1);
                 s3 = (if playing s2 g = None \<or> playing s2 g = Some False
                       then create_task g s2 else s2)
             in (Some v, s3))
          else (None, s))"

text \<open>
  \<open>leave_channel(guild)\<close>. The flag says whether \<open>disconnect()\<close> returns. An exception
  is logged and raised again: the result is \<open>Some\<close> of it, with the state as the
  exception left it.
\<close>

definition leave_channel :: "guild_id \<Rightarrow> bool \<Rightarrow> vm_state \<Rightarrow> exn option \<times> vm_state" where
  "leave_channel g ok s =
     (case connected_client s g of
        None \<Rightarrow> (None, s)
      | Some v \<Rightarrow>
          if ok then
            (let s1 = disconnect g v s in
             case audio_queue s1 g of
               None \<Rightarrow> (None, s1\<lparr>voice_text_channels := (voice_text_channels s1)(g := None)\<rparr>)
             | Some q \<Rightarrow>
                 (let s2 = s1\<lparr>queue_heap := (queue_heap s1)(q := []),
                               audio_queue := (audio_queue s1)(g := None)\<rparr>
                  in case playing s2 g of
                       None \<Rightarrow> (Some KeyError, s2)
                     | Some b \<Rightarrow>
                         (None, s2\<lparr>playing := (playing s2)(g := None),
                                   voice_text_channels := (voice_text_channels s2)(g := None)\<rparr>)))
          else (Some DiscordError, s))"

text \<open>
  The \<open>leave\<close> command of the bot (src/bot.py, \<open>leave_voice\<close>): it calls
  \<open>leave_channel\<close> and then deletes the guild's binding; an exception skips the deletion.
\<close>

definition leave_voice :: "guild_id \<Rightarrow> bool \<Rightarrow> vm_state \<Rightarrow> vm_state" where
  "leave_voice g ok s =
     (case leave_channel g ok s of
        (None, s1) \<Rightarrow> s1\<lparr>voice_text_channels := (voice_text_channels s1)(g := None)\<rparr>
      | (Some e, s1) \<Rightarrow> s1)"

text \<open>
  The \<open>join\<close> command of the bot (src/bot.py, \<open>join_voice\<close>), for a user in the voice
  channel \<open>c\<close> who writes in the text channel \<open>t\<close>: it calls \<open>join_channel\<close>, which
  never raises, and then binds the text channel to the guild.
\<close>

definition join_voice :: "channel \<Rightarrow> channel_id \<Rightarrow> bool \<Rightarrow> vm_state \<Rightarrow> vm_state" where
  "join_voice c t ok s =
     (let s1 = snd (join_channel c ok s)
      in s1\<lparr>voice_text_channels := (voice_text_channels s1)(ch_guild c \<mapsto> t)\<rparr>)"

text \<open>
  \<open>await self.audio_queue[guild_id].put(item)\<close>: the queue is unbounded, so \<open>put\<close>
  appends and neither blocks nor fails; the subscript raises \<open>KeyError\<close> (here
  \<open>None\<close>) when the guild has no registered queue.
\<close>

definition put :: "guild_id \<Rightarrow> audio_item \<Rightarrow> vm_state \<Rightarrow> vm_state option" where
  "put g item s =
     (case audio_queue s g of
        None \<Rightarrow> None
      | Some q \<Rightarrow> Some (s\<lparr>queue_heap := (queue_heap s)(q := queue_heap s q @ [item])\<rparr>))"

text \<open>
  Lines 104 to 110 of \<open>play_audio\<close>: a guild without a registered queue gets a queue and
  a worker task; a guild with one gets neither.
\<close>

definition ensure_queue :: "guild_id \<Rightarrow> vm_state \<Rightarrow> vm_state" where
  "ensure_queue g s =
     (if audio_queue s g = None then create_task g (init_queue g s) else s)"

text \<open>
  \<open>play_audio(channel, audio_data, username)\<close>. \<open>connect_ok\<close> and \<open>move_ok\<close> say
  whether \<open>channel.connect()\<close> and \<open>voice_client.move_to(channel)\<close> return, if called.
  Any exception is logged and the call returns \<open>False\<close>.
\<close>

definition play_audio ::
  "channel \<Rightarrow> nat list \<Rightarrow> string \<Rightarrow> bool \<Rightarrow> bool \<Rightarrow> vm_state \<Rightarrow> bool \<times> vm_state" where
  "play_audio c audio_data username connect_ok move_ok s =
     (let g = ch_guild c in
      case (case connected_client s g of
              Some v \<Rightarrow> Some (v, s)
            | None \<Rightarrow> if connect_ok then Some (connect c s) else None) of
        None \<Rightarrow> (False, s)
      | Some (v, s1) \<Rightarrow>
          (case (if vc_channel (vc_heap s1 v) \<noteq> ch_id c
                 then (if move_ok then Some (move_to v c s1) else None)
                 else Some s1) of
             None \<Rightarrow> (False, s1)
           | Some s2 \<Rightarrow>
               (let s3 = ensure_queue g s2
                in case put g \<lparr>item_data = audio_data, item_source = username\<rparr> s3 of
                     None \<Rightarrow> (False, s3)
                   | Some s4 \<Rightarrow> (True, s4))))"

subsection \<open>The worker: \<open>_process_audio_queue\<close> and \<open>_play_audio_data\<close>\<close>

definition set_pc :: "nat \<Rightarrow> pc \<Rightarrow> vm_state \<Rightarrow> vm_state" where
  "set_pc i p s = s\<lparr>tasks := (tasks s)[i := (tasks s ! i)\<lparr>w_pc := p\<rparr>]\<rparr>"

text \<open>\<open>guild_id in self.audio_queue and self.audio_queue[guild_id].empty()\<close>\<close>

definition registered_queue_empty :: "vm_state \<Rightarrow> guild_id \<Rightarrow> bool" where
  "registered_queue_empty s g =
     (case audio_queue s g of None \<Rightarrow> False | Some q \<Rightarrow> queue_heap s q = [])"

text \<open>
  \<open>_play_audio_data(voice_client, audio_item)\<close>, up to its suspension point. \<open>media_ok\<close>
  says whether the temporary file and the FFmpeg source can be created. An empty file
  returns early; \<open>voice_client.play\<close> raises when the client is not connected or is
  already playing. Every exception is caught and logged inside the function, so the
  worker goes back to the head of its loop. Otherwise the call is logged in
  \<open>played\<close> and the task waits for \<open>playback_done\<close>, at most 60 time units.
\<close>

definition play_audio_data :: "nat \<Rightarrow> vc_ref \<Rightarrow> audio_item \<Rightarrow> bool \<Rightarrow> vm_state \<Rightarrow> vm_state" where
  "play_audio_data i v item media_ok s =
     (if \<not> media_ok then set_pc i LoopHead s
      else if item_data item = [] then set_pc i LoopHead s
      else if vc_connected (vc_heap s v) \<and> \<not> vc_playing (vc_heap s v)
      then set_pc i (AwaitPlayback v (now s + 60) False)
             (s\<lparr>played := played s @ [(w_guild (tasks s ! i), item)],
                vc_heap := (vc_heap s)(v := (vc_heap s v)\<lparr>vc_playing := True\<rparr>)\<rparr>)
      else set_pc i LoopHead s)"

text \<open>
  Lines 213 to 219: the item goes back into the guild's queue with \<open>put\<close> and the task
  sleeps 2 time units. A \<open>KeyError\<close> is caught by the loop's \<open>except\<close>, which sleeps
  1 time unit.
\<close>

definition requeue :: "nat \<Rightarrow> guild_id \<Rightarrow> audio_item \<Rightarrow> vm_state \<Rightarrow> vm_state" where
  "requeue i g item s =
     (case put g item s of
        None \<Rightarrow> set_pc i (ErrorSleep (now s + 1)) s
      | Some s1 \<Rightarrow> set_pc i (BackoffSleep (now s + 2)) s1)"

text \<open>Lines 207 to 227: what the worker does with an item it has taken from the queue.\<close>

definition handle_item :: "nat \<Rightarrow> guild_id \<Rightarrow> audio_item \<Rightarrow> bool \<Rightarrow> vm_state \<Rightarrow> vm_state" where
  "handle_item i g item media_ok s =
     (if \<not> guilds s g then set_pc i LoopHead s
      else case connected_client s g of
        None \<Rightarrow> requeue i g item s
      | Some v \<Rightarrow>
          if vc_playing (vc_heap s v) then set_pc i (PollPlaying v item (now s + 1 / 2)) s
          else play_audio_data i v item media_ok s)"

text \<open>
  One resumption of task \<open>i\<close> by the event loop: the task runs from the suspension point
  it stands at to the next one. A task whose wait is not over yet is left as it is.
\<close>

definition worker_step :: "nat \<Rightarrow> bool \<Rightarrow> vm_state \<Rightarrow> vm_state" where
  "worker_step i media_ok s =
     (if length (tasks s) \<le> i then s
      else
        (let g = w_guild (tasks s ! i) in
         case w_pc (tasks s ! i) of
           LoopHead \<Rightarrow>
             (case audio_queue s g of
                None \<Rightarrow> set_pc i Exited s
              | Some q \<Rightarrow> set_pc i (WaitGet q (now s + 300)) s)
         | WaitGet q t \<Rightarrow>
             (case queue_heap s q of
                item # rest \<Rightarrow>
                  handle_item i g item media_ok (s\<lparr>queue_heap := (queue_heap s)(q := rest)\<rparr>)
              | [] \<Rightarrow>
                  if t \<le> now s then
                    (if registered_queue_empty s g then set_pc i (GraceSleep (now s + 10)) s
                     else set_pc i LoopHead s)
                  else s)
         | GraceSleep t \<Rightarrow>
             if t \<le> now s then
               (if registered_queue_empty s g then set_pc i Exited s else set_pc i LoopHead s)
             else s
         | BackoffSleep t \<Rightarrow> if t \<le> now s then set_pc i LoopHead s else s
         | PollPlaying v item t \<Rightarrow>
             if t \<le> now s then
               (if vc_playing (vc_heap s v) then set_pc i (PollPlaying v item (now s + 1 / 2)) s
                else play_audio_data i v item media_ok s)
             else s
         | AwaitPlayback v t d \<Rightarrow>
             if d then set_pc i LoopHead s
             else if t \<le> now s then set_pc i LoopHead (end_playback v s)
             else s
         | ErrorSleep t \<Rightarrow> if t \<le> now s then set_pc i LoopHead s else s
         | Exited \<Rightarrow> s))"

subsection \<open>Runs\<close>

text \<open>
  What can happen to the manager: a call of one of its three operations (with the
  outcome of the Discord calls it makes), the event loop resuming a worker task, time
  passing, a clip ending, and the voice connection of a guild dropping
  (\<open>is_connected()\<close> turns false without any call of the manager).
\<close>

datatype event =
    Join channel bool
  | Leave guild_id bool
  | Play channel "nat list" string bool bool
  | Run nat bool
  | Advance rat
  | PlaybackEnds vc_ref
  | Drop guild_id
  | Reconnect guild_id

definition drop_connection :: "guild_id \<Rightarrow> vm_state \<Rightarrow> vm_state" where
  "drop_connection g s =
     (case guild_voice s g of
        None \<Rightarrow> s
      | Some v \<Rightarrow>
          (let s1 = end_playback v s
           in s1\<lparr>vc_heap := (vc_heap s1)(v := (vc_heap s1 v)\<lparr>vc_connected := False\<rparr>)\<rparr>))"

text \<open>The library re-establishes a dropped connection: \<open>is_connected()\<close> is true again.\<close>

definition restore_connection :: "guild_id \<Rightarrow> vm_state \<Rightarrow> vm_state" where
  "restore_connection g s =
     (case guild_voice s g of
        None \<Rightarrow> s
      | Some v \<Rightarrow> s\<lparr>vc_heap := (vc_heap s)(v := (vc_heap s v)\<lparr>vc_connected := True\<rparr>)\<rparr>)"

fun apply_event :: "event \<Rightarrow> vm_state \<Rightarrow> vm_state" where
  "apply_event (Join c ok) s = snd (join_channel c ok s)"
| "apply_event (Leave g ok) s = snd (leave_channel g ok s)"
| "apply_event (Play c d u cok mok) s = snd (play_audio c d u cok mok s)"
| "apply_event (Run i media_ok) s = worker_step i media_ok s"
| "apply_event (Advance d) s = s\<lparr>now := now s + max 0 d\<rparr>"
| "apply_event (PlaybackEnds v) s = end_playback v s"
| "apply_event (Drop g) s = drop_connection g s"
| "apply_event (Reconnect g) s = restore_connection g s"

fun run :: "event list \<Rightarrow> vm_state \<Rightarrow> vm_state" where
  "run [] s = s"
| "run (e # es) s = run es (apply_event e s)"

text \<open>
  The manager of a bot that has just started, in the guilds \<open>gs\<close>, with the bindings
  \<open>binds\<close> that \<open>load_saves\<close> read from the saved file.
\<close>

definition init_state :: "(guild_id \<Rightarrow> bool) \<Rightarrow> (guild_id \<rightharpoonup> channel_id) \<Rightarrow> vm_state" where
  "init_state gs binds =
     \<lparr>audio_queue = Map.empty, playing = Map.empty, voice_text_channels = binds,
      guilds = gs, guild_voice = Map.empty,
      queue_heap = (\<lambda>q. []), next_queue = 0,
      vc_heap = (\<lambda>v. \<lparr>vc_channel = 0, vc_connected = False, vc_playing = False\<rparr>),
      next_vc = 0, tasks = [], now = 0, played = []\<rparr>"

text \<open>The worker tasks of a guild that have not returned.\<close>

definition active_workers :: "vm_state \<Rightarrow> guild_id \<Rightarrow> worker list" where
  "active_workers s g = filter (\<lambda>w. w_guild w = g \<and> w_pc w \<noteq> Exited) (tasks s)"

text \<open>The items waiting in the guild's registered queue, the next one first.\<close>

definition waiting :: "vm_state \<Rightarrow> guild_id \<Rightarrow> audio_item list" where
  "waiting s g = (case audio_queue s g of None \<Rightarrow> [] | Some q \<Rightarrow> queue_heap s q)"

subsection \<open>Observing the order of playback\<close>

text \<open>The job a worker has taken from the queue and not yet handed to \<open>play\<close>.\<close>

fun held :: "pc \<Rightarrow> audio_item list" where
  "held (PollPlaying v item t) = [item]"
| "held LoopHead = []"
| "held (WaitGet q t) = []"
| "held (GraceSleep t) = []"
| "held (BackoffSleep t) = []"
| "held (AwaitPlayback v t d) = []"
| "held (ErrorSleep t) = []"
| "held Exited = []"

text \<open>The jobs of a guild that are still to be played: those held by its workers, then its queue.\<close>

definition pending :: "vm_state \<Rightarrow> guild_id \<Rightarrow> audio_item list" where
  "pending s g =
     concat (map (\<lambda>w. if w_guild w = g then held (w_pc w) else []) (tasks s)) @ waiting s g"

text \<open>The jobs for which a worker of the guild has called \<open>voice_client.play\<close>, in order.\<close>

definition played_in :: "vm_state \<Rightarrow> guild_id \<Rightarrow> audio_item list" where
  "played_in s g = map snd (filter (\<lambda>p. fst p = g) (played s))"

text \<open>The jobs that \<open>play_audio\<close> accepted for the guild in the course of a run, in order.\<close>

fun accepted :: "guild_id \<Rightarrow> event list \<Rightarrow> vm_state \<Rightarrow> audio_item list" where
  "accepted g [] s = []"
| "accepted g (e # es) s =
     (case e of
        Play c d u cok mok \<Rightarrow>
          if ch_guild c = g \<and> fst (play_audio c d u cok mok s)
          then [\<lparr>item_data = d, item_source = u\<rparr>] else []
      | _ \<Rightarrow> [])
     @ accepted g es (apply_event e s)"

text \<open>The events that take the guild's connection away: a leave, and a dropped connection.\<close>

fun disturbs :: "guild_id \<Rightarrow> event \<Rightarrow> bool" where
  "disturbs g (Leave g' ok) = (g' = g)"
| "disturbs g (Drop g') = (g' = g)"
| "disturbs g (Join c ok) = False"
| "disturbs g (Play c d u cok mok) = False"
| "disturbs g (Run i media_ok) = False"
| "disturbs g (Advance d) = False"
| "disturbs g (PlaybackEnds v) = False"
| "disturbs g (Reconnect g') = False"

section \<open>Text (Python \<open>str\<close>)\<close>

text \<open>
  A Python string is a sequence of code points. The embedding uses Isabelle's
  \<open>string\<close>, whose characters are the code points 0 to 255; the character classes below
  are those of Python on that range (\<open>str.isspace\<close> and the \<open>\s\<close> of \<open>re\<close>;
  \<open>\w\<close> of \<open>re\<close> with \<open>re.UNICODE\<close>; \<open>str.lower\<close>).
\<close>

definition is_space :: "char \<Rightarrow> bool" where
  "is_space c = (of_char c \<in> set [9, 10, 11, 12, 13, 28, 29, 30, 31, 32, 133, 160 :: nat])"

definition in_range :: "nat \<Rightarrow> nat \<Rightarrow> char \<Rightarrow> bool" where
  "in_range lo hi c = (lo \<le> of_char c \<and> of_char c \<le> (hi :: nat))"

definition is_word :: "char \<Rightarrow> bool" where
  "is_word c =
     (in_range 48 57 c \<or> in_range 65 90 c \<or> in_range 95 95 c \<or> in_range 97 122 c
      \<or> in_range 170 170 c \<or> in_range 178 179 c \<or> in_range 181 181 c
      \<or> in_range 185 186 c \<or> in_range 188 190 c \<or> in_range 192 214 c
      \<or> in_range 216 246 c \<or> in_range 248 255 c)"

definition to_lower :: "char \<Rightarrow> char" where
  "to_lower c =
     (if in_range 65 90 c \<or> in_range 192 214 c \<or> in_range 216 222 c
      then char_of (of_char c + (32 :: nat)) else c)"

text \<open>\<open>text.strip()\<close>\<close>

definition strip :: "string \<Rightarrow> string" where
  "strip text = rev (dropWhile is_space (rev (dropWhile is_space text)))"

text \<open>\<open>text.split()\<close>: the maximal runs of characters that are not white space.\<close>

function split :: "string \<Rightarrow> string list" where
  "split [] = []"
| "split (c # cs) =
     (if is_space c then split cs
      else (c # takeWhile (\<lambda>x. \<not> is_space x) cs) # split (dropWhile (\<lambda>x. \<not> is_space x) cs))"
  by pat_completeness auto
termination
  by (relation "measure length") (auto simp: length_dropWhile_le less_Suc_eq_le)

text \<open>\<open>' '.join(parts)\<close>\<close>

fun join :: "string list \<Rightarrow> string" where
  "join [] = []"
| "join [w] = w"
| "join (w # ws) = w @ CHR '' '' # join ws"

section \<open>The synthesizer adapter (src/tts\_handler.py)\<close>

text \<open>
  \<open>TTSHandler\<close> holds the voice settings. The two libraries it calls are parameters of
  the embedding: \<open>re_sub pattern repl dotall text\<close> stands for
  \<open>re.sub(pattern, repl, text)\<close> (with \<open>flags=re.DOTALL\<close> when \<open>dotall\<close>), the patterns
  being the source's own, and \<open>stream text voice rate volume\<close> for the chunks that
  \<open>edge_tts.Communicate(...).stream()\<close> yields, or the exception it raises.
\<close>

record tts_handler =
  voice :: string
  rate :: string
  volume :: string

type_synonym re_sub_fn = "string \<Rightarrow> string \<Rightarrow> bool \<Rightarrow> string \<Rightarrow> string"

text \<open>
  A string literal of the logic cannot hold a backslash; \<open>bs\<close> is the string of one
  backslash, so \<open>''<#'' @ bs @ ''d+>''\<close> is the pattern \<open><#\d+>\<close>.
\<close>

definition bs :: string where
  "bs = [CHR 0x5C]"

text \<open>Lines 37 to 49 of \<open>clean_text\<close>: mentions, emojis, code, formatting marks and URLs.\<close>

definition strip_markup :: "re_sub_fn \<Rightarrow> string \<Rightarrow> string" where
  "strip_markup re_sub text0 =
     (let text1 = re_sub (''<@[!&]?'' @ bs @ ''d+>'') '''' False text0;
          text2 = re_sub (''<#'' @ bs @ ''d+>'') '''' False text1;
          text3 = re_sub (''<:'' @ bs @ ''w+:'' @ bs @ ''d+>'') '''' False text2;
          text4 = re_sub ''```.*?```'' '''' True text3;
          text5 = re_sub ''`.*?`'' '''' False text4;
          text6 = re_sub (bs @ ''*'' @ bs @ ''*(.*?)'' @ bs @ ''*'' @ bs @ ''*'') (bs @ ''1'')
                    False text5;
          text7 = re_sub (bs @ ''*(.*?)'' @ bs @ ''*'') (bs @ ''1'') False text6;
          text8 = re_sub ''~~(.*?)~~'' (bs @ ''1'') False text7;
          text9 = re_sub ''__(.*?)__'' (bs @ ''1'') False text8
      in re_sub
           (''http[s]?://(?:[a-zA-Z]|[0-9]|[$-_@.&+]|[!*'' @ bs @ bs @ ''('' @ bs @ bs @
            ''),]|(?:%[0-9a-fA-F][0-9a-fA-F]))+'')
           '''' False text9)"

text \<open>\<open>if len(text) > 500: text = text[:500] + "..."\<close>\<close>

definition limit_length :: "string \<Rightarrow> string" where
  "limit_length text = (if length text > 500 then take 500 text @ ''...'' else text)"

definition clean_text :: "re_sub_fn \<Rightarrow> string \<Rightarrow> string" where
  "clean_text re_sub text = strip (limit_length (join (split (strip_markup re_sub text))))"

text \<open>A chunk of the stream: \<open>chunk["type"]\<close> and \<open>chunk["data"]\<close>.\<close>

record chunk =
  chunk_type :: string
  chunk_data :: "nat list"

datatype tts_error = NetworkError | TimeoutError

type_synonym stream_fn = "string \<Rightarrow> string \<Rightarrow> string \<Rightarrow> string \<Rightarrow> tts_error + chunk list"

text \<open>The bytes of the audio chunks of a stream, in order.\<close>

definition audio_of :: "chunk list \<Rightarrow> nat list" where
  "audio_of chunks = concat (map chunk_data (filter (\<lambda>c. chunk_type c = ''audio'') chunks))"

text \<open>\<open>generate_tts(text)\<close>: \<open>None\<close> is the failure result.\<close>

definition generate_tts ::
  "re_sub_fn \<Rightarrow> stream_fn \<Rightarrow> tts_handler \<Rightarrow> string \<Rightarrow> nat list option" where
  "generate_tts re_sub stream h text =
     (let cleaned = clean_text re_sub text in
      if cleaned = [] then None
      else case stream cleaned (voice h) (rate h) (volume h) of
             Inl e \<Rightarrow> None
           | Inr chunks \<Rightarrow>
               if audio_of chunks = [] then None else Some (audio_of chunks))"

section \<open>The text normalizer (src/autocorrector.py)\<close>

text \<open>
  \<open>SUSTITUCIONES\<close>, in the order of the dictionary; the \<open>n\<close> with tilde of the last
  replacement is the code point 241.
\<close>

definition SUSTITUCIONES :: "(string \<times> string) list" where
  "SUSTITUCIONES =
     [(''xd'', ''X D''),
      (''wtf?'', ''watafac?''),
      (''wtf'', ''watafac''),
      (''omg'', ''o-em-ge''),
      (''porno'', ''nopor''),
      (''hitler'', ''se'' @ [CHR 0xF1] @ ''or del bigote'')]"

text \<open>
  The patterns that \<open>_flexible_pattern_for\<close> builds all have one shape:
  \<open>(?<!\w)(?:\<dots>)(?!\w)\<close> around a sequence of escaped characters and \<open>\s*\<close>. The
  embedding keeps the sequence as a list of elements instead of the pattern's text.
\<close>

datatype pat_elem = Lit char | Spaces

text \<open>The loop over the characters of the token.\<close>

fun parts_of :: "string \<Rightarrow> pat_elem list" where
  "parts_of [] = []"
| "parts_of (ch # rest) =
     (if is_space ch then parts_of rest
      else if is_word ch then Lit ch # Spaces # parts_of rest
      else Spaces # Lit ch # Spaces # parts_of rest)"

text \<open>
  \<open>_flexible_pattern_for(token)\<close>: the token is stripped, the parts are joined and a
  final \<open>\s*\<close> is removed.
\<close>

definition flexible_pattern_for :: "string \<Rightarrow> pat_elem list" where
  "flexible_pattern_for token =
     (let inner = parts_of (strip token)
      in if inner \<noteq> [] \<and> last inner = Spaces then butlast inner else inner)"

text \<open>Two characters are equal under \<open>re.IGNORECASE\<close>.\<close>

definition ci_eq :: "char \<Rightarrow> char \<Rightarrow> bool" where
  "ci_eq a c = (to_lower a = to_lower c)"

text \<open>
  The number of characters that the sequence, followed by the lookahead \<open>(?!\w)\<close>,
  matches at the start of a text, as the backtracking matcher of \<open>re\<close> finds it:
  \<open>\s*\<close> is greedy, so it takes as much white space as a match of the rest allows.
\<close>

fun match_elems :: "pat_elem list \<Rightarrow> string \<Rightarrow> nat option" where
  "match_elems [] s = (case s of [] \<Rightarrow> Some 0 | c # _ \<Rightarrow> if is_word c then None else Some 0)"
| "match_elems (Lit a # p) [] = None"
| "match_elems (Lit a # p) (c # s) =
     (if ci_eq a c then map_option Suc (match_elems p s) else None)"
| "match_elems (Spaces # p) [] = match_elems p []"
| "match_elems (Spaces # p) (c # s) =
     (if is_space c
      then (case match_elems (Spaces # p) s of
              Some n \<Rightarrow> Some (Suc n)
            | None \<Rightarrow> match_elems p (c # s))
      else match_elems p (c # s))"

text \<open>
  A match at a position of the text: the lookbehind \<open>(?<!\w)\<close> looks at the character
  before the position, if there is one.
\<close>

definition match_at :: "pat_elem list \<Rightarrow> char option \<Rightarrow> string \<Rightarrow> nat option" where
  "match_at p prev s =
     (case prev of
        None \<Rightarrow> match_elems p s
      | Some b \<Rightarrow> if is_word b then None else match_elems p s)"

text \<open>
  \<open>regex.sub(repl, text)\<close> from a position on: the leftmost match is replaced and the
  scan goes on behind it; a character where nothing matches is copied. The replacements
  of the program hold no backslash, so they are inserted as they are.
\<close>

fun sub_from :: "pat_elem list \<Rightarrow> string \<Rightarrow> char option \<Rightarrow> string \<Rightarrow> string" where
  "sub_from p repl prev [] = (case match_at p prev [] of None \<Rightarrow> [] | Some n \<Rightarrow> repl)"
| "sub_from p repl prev (c # cs) =
     (case match_at p prev (c # cs) of
        None \<Rightarrow> c # sub_from p repl (Some c) cs
      | Some 0 \<Rightarrow> repl @ c # sub_from p repl (Some c) cs
      | Some (Suc n) \<Rightarrow> repl @ sub_from p repl (Some ((c # cs) ! n)) (drop n cs))"

definition autocorregir_mensaje :: "string \<Rightarrow> string" where
  "autocorregir_mensaje texto =
     foldl (\<lambda>resultado (token, reemplazo).
              sub_from (flexible_pattern_for token) reemplazo None resultado)
       texto SUSTITUCIONES"

text \<open>Some position of the text, from the given one on, has a match of the pattern.\<close>

fun matches_in :: "pat_elem list \<Rightarrow> char option \<Rightarrow> string \<Rightarrow> bool" where
  "matches_in p prev [] = (match_at p prev [] \<noteq> None)"
| "matches_in p prev (c # cs) = (match_at p prev (c # cs) \<noteq> None \<or> matches_in p (Some c) cs)"

text \<open>The text holds a token that one of the substitutions matches.\<close>

definition matchable :: "string \<Rightarrow> bool" where
  "matchable texto =
     list_ex (\<lambda>(token, reemplazo). matches_in (flexible_pattern_for token) None texto)
       SUSTITUCIONES"

section \<open>Properties of the voice manager\<close>

subsection \<open>Frame lemmas\<close>

lemma connected_client_frame:
  "guild_voice s' = guild_voice s \<Longrightarrow> vc_heap s' = vc_heap s \<Longrightarrow>
   connected_client s' g = connected_client s g"
  by (simp add: connected_client_def cong: option.case_cong)

lemma connected_client_move_to [simp]:
  "connected_client (move_to v c s) g = connected_client s g"
  by (auto simp: connected_client_def move_to_def split: option.splits)

lemma connected_client_create_task [simp]:
  "connected_client (create_task g' s) g = connected_client s g"
  by (rule connected_client_frame) (simp_all add: create_task_def)

lemma connected_client_init_queue [simp]:
  "connected_client (init_queue g' s) g = connected_client s g"
  by (rule connected_client_frame) (simp_all add: init_queue_def)

lemma connected_client_connect [simp]:
  "connected_client (snd (connect c s)) (ch_guild c) = Some (next_vc s)"
  by (simp add: connected_client_def connect_def)

lemma vc_heap_create_task [simp]: "vc_heap (create_task g s) = vc_heap s"
  by (simp add: create_task_def)

lemma vc_heap_init_queue [simp]: "vc_heap (init_queue g s) = vc_heap s"
  by (simp add: init_queue_def)

lemma vc_channel_connect [simp]:
  "vc_channel (vc_heap (snd (connect c s)) (next_vc s)) = ch_id c"
  by (simp add: connect_def)

lemma vc_channel_move_to [simp]: "vc_channel (vc_heap (move_to v c s) v) = ch_id c"
  by (simp add: move_to_def)

text \<open>The definitions a run on a concrete state unfolds.\<close>

lemmas vm_defs =
  init_state_def join_channel_def connected_client_def connect_def init_queue_def
  create_task_def worker_step_def set_pc_def leave_channel_def disconnect_def
  end_playback_def active_workers_def play_audio_def ensure_queue_def put_def move_to_def
  waiting_def handle_item_def requeue_def play_audio_data_def registered_queue_empty_def
  drop_connection_def restore_connection_def leave_voice_def join_voice_def Let_def

subsection \<open>\<open>join_channel\<close> by cases\<close>

lemma join_channel_connected:
  "connected_client s (ch_guild c) = Some v \<Longrightarrow>
   join_channel c ok s =
     (if vc_channel (vc_heap s v) = ch_id c then (Some v, s)
      else if ok then (Some v, move_to v c s) else (None, s))"
  by (simp add: join_channel_def)

lemma join_channel_fresh:
  "connected_client s (ch_guild c) = None \<Longrightarrow>
   join_channel c ok s =
     (if ok then
        (Some (next_vc s),
         (let s1 = snd (connect c s);
              s2 = (if audio_queue s1 (ch_guild c) = None then init_queue (ch_guild c) s1 else s1)
          in if playing s2 (ch_guild c) = None \<or> playing s2 (ch_guild c) = Some False
             then create_task (ch_guild c) s2 else s2))
      else (None, s))"
  by (simp add: join_channel_def connect_def Let_def)

lemma join_channel_again:
  assumes "join_channel c ok s = (Some v, s1)"
  shows "join_channel c ok' s1 = (Some v, s1)"
proof (cases "connected_client s (ch_guild c)")
  case None
  with assms have ok: ok and v: "v = next_vc s"
    by (auto simp: join_channel_fresh split: if_splits)
  from assms None ok have c: "connected_client s1 (ch_guild c) = Some v"
    and h: "vc_channel (vc_heap s1 v) = ch_id c"
    by (auto simp: join_channel_fresh Let_def v)
  show ?thesis by (simp add: join_channel_connected [OF c] h)
next
  case (Some v0)
  with assms have c: "connected_client s1 (ch_guild c) = Some v"
    and h: "vc_channel (vc_heap s1 v) = ch_id c"
    by (auto simp: join_channel_connected split: if_splits)
  show ?thesis by (simp add: join_channel_connected [OF c] h)
qed

text \<open>
  Claim C6. When the guild's voice client is connected to the requested channel,
  \<open>join_channel\<close> returns that client and changes nothing, whether or not a Discord call
  would succeed: no connection is made and no error is returned. When the client is
  connected to another channel of the guild and \<open>move_to\<close> returns, the result is the same
  client, now in the requested channel; the manager's queues, its \<open>playing\<close> table, the
  worker tasks and the set of voice clients are as before. A second \<open>join_channel\<close>
  after one that returned a client returns the same client and changes nothing.
\<close>

theorem join_channel_idempotent:
  "(connected_client s (ch_guild c) = Some v \<and> vc_channel (vc_heap s v) = ch_id c
      \<longrightarrow> join_channel c ok s = (Some v, s))
 \<and> (connected_client s (ch_guild c) = Some v \<and> vc_channel (vc_heap s v) \<noteq> ch_id c
      \<longrightarrow> join_channel c True s = (Some v, move_to v c s)
        \<and> connected_client (move_to v c s) (ch_guild c) = Some v
        \<and> vc_channel (vc_heap (move_to v c s) v) = ch_id c
        \<and> audio_queue (move_to v c s) = audio_queue s
        \<and> playing (move_to v c s) = playing s
        \<and> queue_heap (move_to v c s) = queue_heap s
        \<and> tasks (move_to v c s) = tasks s
        \<and> guild_voice (move_to v c s) = guild_voice s
        \<and> next_vc (move_to v c s) = next_vc s)
 \<and> (join_channel c ok s = (Some v, s1) \<longrightarrow> join_channel c ok' s1 = (Some v, s1))"
proof -
  have a: "connected_client s (ch_guild c) = Some v \<and> vc_channel (vc_heap s v) = ch_id c
      \<longrightarrow> join_channel c ok s = (Some v, s)"
    by (simp add: join_channel_connected)
  have b: "connected_client s (ch_guild c) = Some v \<and> vc_channel (vc_heap s v) \<noteq> ch_id c
      \<longrightarrow> join_channel c True s = (Some v, move_to v c s)
        \<and> connected_client (move_to v c s) (ch_guild c) = Some v
        \<and> vc_channel (vc_heap (move_to v c s) v) = ch_id c
        \<and> audio_queue (move_to v c s) = audio_queue s
        \<and> playing (move_to v c s) = playing s
        \<and> queue_heap (move_to v c s) = queue_heap s
        \<and> tasks (move_to v c s) = tasks s
        \<and> guild_voice (move_to v c s) = guild_voice s
        \<and> next_vc (move_to v c s) = next_vc s"
    by (simp add: join_channel_connected) (simp add: move_to_def)
  have d: "join_channel c ok s = (Some v, s1) \<longrightarrow> join_channel c ok' s1 = (Some v, s1)"
    by (rule impI) (rule join_channel_again)
  show ?thesis by (rule conjI [OF a conjI [OF b d]])
qed

theorem join_channel_idempotent_witness:
  "connected_client (snd (join_channel \<lparr>ch_id = 7, ch_guild = 1\<rparr> True (init_state (\<lambda>g. True) Map.empty))) 1 = Some 0
   \<and> vc_channel (vc_heap (snd (join_channel \<lparr>ch_id = 7, ch_guild = 1\<rparr> True (init_state (\<lambda>g. True) Map.empty))) 0) = 7
   \<and> join_channel \<lparr>ch_id = 7, ch_guild = 1\<rparr> False
       (snd (join_channel \<lparr>ch_id = 7, ch_guild = 1\<rparr> True (init_state (\<lambda>g. True) Map.empty)))
     = (Some 0, snd (join_channel \<lparr>ch_id = 7, ch_guild = 1\<rparr> True (init_state (\<lambda>g. True) Map.empty)))"
proof -
  let ?c = "\<lparr>ch_id = 7, ch_guild = 1\<rparr>"
  let ?s = "snd (join_channel ?c True (init_state (\<lambda>g. True) Map.empty))"
  have h: "connected_client ?s (ch_guild ?c) = Some 0 \<and> vc_channel (vc_heap ?s 0) = ch_id ?c"
    by (simp add: vm_defs)
  with join_channel_idempotent [of ?s ?c 0 False] have "join_channel ?c False ?s = (Some 0, ?s)"
    by blast
  with h show ?thesis by simp
qed

subsection \<open>\<open>play_audio\<close> by cases\<close>

lemma put_ensure_queue:
  "\<exists>s4. put g item (ensure_queue g s) = Some s4 \<and> waiting s4 g = waiting s g @ [item]
        \<and> guild_voice s4 = guild_voice s \<and> vc_heap s4 = vc_heap s"
  by (auto simp: put_def ensure_queue_def create_task_def init_queue_def waiting_def
      split: option.splits)

lemma play_audio_fresh:
  assumes "connected_client s (ch_guild c) = None"
  shows "play_audio c d u False mok s = (False, s)"
    and "\<exists>s4. play_audio c d u True mok s = (True, s4)
            \<and> waiting s4 (ch_guild c) = waiting s (ch_guild c) @ [\<lparr>item_data = d, item_source = u\<rparr>]
            \<and> connected_client s4 (ch_guild c) = Some (next_vc s)
            \<and> vc_channel (vc_heap s4 (next_vc s)) = ch_id c"
proof -
  show "play_audio c d u False mok s = (False, s)"
    using assms by (simp add: play_audio_def)
  obtain s4 where s4:
    "put (ch_guild c) \<lparr>item_data = d, item_source = u\<rparr>
       (ensure_queue (ch_guild c) (snd (connect c s))) = Some s4"
    "waiting s4 (ch_guild c) =
       waiting (snd (connect c s)) (ch_guild c) @ [\<lparr>item_data = d, item_source = u\<rparr>]"
    "guild_voice s4 = guild_voice (snd (connect c s))"
    "vc_heap s4 = vc_heap (snd (connect c s))"
    using put_ensure_queue by blast
  have w: "waiting (snd (connect c s)) (ch_guild c) = waiting s (ch_guild c)"
    by (simp add: waiting_def connect_def split: option.splits)
  have "play_audio c d u True mok s = (True, s4)"
    using assms s4(1) by (simp add: play_audio_def connect_def Let_def)
  moreover have "connected_client s4 (ch_guild c) = Some (next_vc s)"
    using connected_client_frame [OF s4(3,4)] by simp
  moreover have "vc_channel (vc_heap s4 (next_vc s)) = ch_id c"
    by (simp add: s4(4))
  ultimately show "\<exists>s4. play_audio c d u True mok s = (True, s4)
            \<and> waiting s4 (ch_guild c) = waiting s (ch_guild c) @ [\<lparr>item_data = d, item_source = u\<rparr>]
            \<and> connected_client s4 (ch_guild c) = Some (next_vc s)
            \<and> vc_channel (vc_heap s4 (next_vc s)) = ch_id c"
    using s4(2) w by simp
qed

lemma play_audio_same_channel:
  assumes "connected_client s (ch_guild c) = Some v" "vc_channel (vc_heap s v) = ch_id c"
  shows "\<exists>s4. play_audio c d u cok mok s = (True, s4)
            \<and> waiting s4 (ch_guild c) = waiting s (ch_guild c) @ [\<lparr>item_data = d, item_source = u\<rparr>]
            \<and> connected_client s4 (ch_guild c) = Some v
            \<and> vc_channel (vc_heap s4 v) = ch_id c"
proof -
  obtain s4 where s4:
    "put (ch_guild c) \<lparr>item_data = d, item_source = u\<rparr> (ensure_queue (ch_guild c) s) = Some s4"
    "waiting s4 (ch_guild c) = waiting s (ch_guild c) @ [\<lparr>item_data = d, item_source = u\<rparr>]"
    "guild_voice s4 = guild_voice s" "vc_heap s4 = vc_heap s"
    using put_ensure_queue by blast
  have "play_audio c d u cok mok s = (True, s4)"
    using assms s4(1) by (simp add: play_audio_def Let_def)
  moreover have "connected_client s4 (ch_guild c) = Some v"
    using assms(1) connected_client_frame [OF s4(3,4)] by simp
  ultimately show ?thesis using s4 assms(2) by simp
qed

lemma play_audio_other_channel:
  assumes "connected_client s (ch_guild c) = Some v" "vc_channel (vc_heap s v) \<noteq> ch_id c"
  shows "play_audio c d u cok False s = (False, s)"
    and "\<exists>s4. play_audio c d u cok True s = (True, s4)
            \<and> waiting s4 (ch_guild c) = waiting s (ch_guild c) @ [\<lparr>item_data = d, item_source = u\<rparr>]
            \<and> connected_client s4 (ch_guild c) = Some v
            \<and> vc_channel (vc_heap s4 v) = ch_id c"
proof -
  show "play_audio c d u cok False s = (False, s)"
    using assms by (simp add: play_audio_def)
  obtain s4 where s4:
    "put (ch_guild c) \<lparr>item_data = d, item_source = u\<rparr>
       (ensure_queue (ch_guild c) (move_to v c s)) = Some s4"
    "waiting s4 (ch_guild c) =
       waiting (move_to v c s) (ch_guild c) @ [\<lparr>item_data = d, item_source = u\<rparr>]"
    "guild_voice s4 = guild_voice (move_to v c s)" "vc_heap s4 = vc_heap (move_to v c s)"
    using put_ensure_queue by blast
  have w: "waiting (move_to v c s) (ch_guild c) = waiting s (ch_guild c)"
    by (simp add: waiting_def move_to_def split: option.splits)
  have "play_audio c d u cok True s = (True, s4)"
    using assms s4(1) by (simp add: play_audio_def Let_def)
  moreover have "connected_client s4 (ch_guild c) = Some v"
    using assms(1) connected_client_frame [OF s4(3,4)] by simp
  moreover have "vc_channel (vc_heap s4 v) = ch_id c"
    by (simp add: s4(4))
  ultimately show "\<exists>s4. play_audio c d u cok True s = (True, s4)
            \<and> waiting s4 (ch_guild c) = waiting s (ch_guild c) @ [\<lparr>item_data = d, item_source = u\<rparr>]
            \<and> connected_client s4 (ch_guild c) = Some v
            \<and> vc_channel (vc_heap s4 v) = ch_id c"
    using s4(2) w by simp
qed

text \<open>
  Claim C10. \<open>play_audio\<close> does more than put the job into the queue. It returns
  \<open>False\<close> exactly when the guild has no connected voice client and \<open>connect\<close> raises,
  or the client is connected to another channel and \<open>move_to\<close> raises; then nothing has
  changed, the guild's queue included. When it returns \<open>True\<close> the guild's voice client
  is connected to the job's channel and the job is the last item of the guild's queue.
\<close>

theorem play_audio_connects_before_enqueue:
  assumes "play_audio c d u cok mok s = (r, s1)"
  shows "(r \<longleftrightarrow> \<not> ((connected_client s (ch_guild c) = None \<and> \<not> cok)
              \<or> (\<exists>v. connected_client s (ch_guild c) = Some v
                     \<and> vc_channel (vc_heap s v) \<noteq> ch_id c \<and> \<not> mok)))
       \<and> (\<not> r \<longrightarrow> s1 = s)
       \<and> (r \<longrightarrow> (\<exists>v. connected_client s1 (ch_guild c) = Some v
                      \<and> vc_channel (vc_heap s1 v) = ch_id c)
               \<and> waiting s1 (ch_guild c) =
                   waiting s (ch_guild c) @ [\<lparr>item_data = d, item_source = u\<rparr>])"
proof (cases "connected_client s (ch_guild c)")
  case None
  show ?thesis
  proof (cases cok)
    case True
    with play_audio_fresh(2)[OF None, of d u mok] assms None show ?thesis by auto
  next
    case False
    with play_audio_fresh(1)[OF None, of d u mok] assms None show ?thesis by auto
  qed
next
  case (Some v)
  show ?thesis
  proof (cases "vc_channel (vc_heap s v) = ch_id c")
    case True
    with play_audio_same_channel[OF Some True, of d u cok mok] assms Some show ?thesis by auto
  next
    case False
    show ?thesis
    proof (cases mok)
      case True
      with play_audio_other_channel(2)[OF Some False, of d u cok] assms Some False
      show ?thesis by auto
    next
      case mf: False
      with play_audio_other_channel(1)[OF Some False, of d u cok] assms Some False
      show ?thesis by auto
    qed
  qed
qed

theorem play_audio_connects_before_enqueue_witness:
  "fst (play_audio \<lparr>ch_id = 7, ch_guild = 1\<rparr> [1, 2] ''ana'' True False
          (init_state (\<lambda>g. True) Map.empty))
   \<and> (\<exists>v. connected_client (snd (play_audio \<lparr>ch_id = 7, ch_guild = 1\<rparr> [1, 2] ''ana'' True False
          (init_state (\<lambda>g. True) Map.empty))) 1 = Some v
        \<and> vc_channel (vc_heap (snd (play_audio \<lparr>ch_id = 7, ch_guild = 1\<rparr> [1, 2] ''ana'' True
          False (init_state (\<lambda>g. True) Map.empty))) v) = 7)
   \<and> waiting (snd (play_audio \<lparr>ch_id = 7, ch_guild = 1\<rparr> [1, 2] ''ana'' True False
          (init_state (\<lambda>g. True) Map.empty))) 1 = [\<lparr>item_data = [1, 2], item_source = ''ana''\<rparr>]"
proof -
  let ?c = "\<lparr>ch_id = 7, ch_guild = 1\<rparr>"
  let ?s = "init_state (\<lambda>g. True) Map.empty"
  let ?p = "play_audio ?c [1, 2] ''ana'' True False ?s"
  have e: "?p = (fst ?p, snd ?p)" by simp
  have n: "connected_client ?s (ch_guild ?c) = None" "waiting ?s (ch_guild ?c) = []"
    by (simp_all add: connected_client_def waiting_def init_state_def)
  from play_audio_connects_before_enqueue [OF e] n show ?thesis by simp
qed

subsection \<open>\<open>leave_channel\<close>\<close>

text \<open>
  Claim C5, as the code has it. Without a connected voice client \<open>leave_channel\<close>
  returns normally and changes nothing, so a binding of the guild stays. With one, a
  \<open>disconnect\<close> that raises is raised again and nothing changes; a \<open>disconnect\<close> that
  returns leaves the guild without a voice client, without a registered queue and
  without a binding. The \<open>leave\<close> command deletes the binding itself whenever
  \<open>leave_channel\<close> returned normally.
\<close>

theorem leave_channel_effects:
  "(connected_client s g = None \<longrightarrow> leave_channel g ok s = (None, s))
 \<and> (connected_client s g = Some v \<longrightarrow> leave_channel g False s = (Some DiscordError, s))
 \<and> (connected_client s g = Some v \<and> (audio_queue s g = None \<or> playing s g \<noteq> None) \<longrightarrow>
      fst (leave_channel g True s) = None
      \<and> connected_client (snd (leave_channel g True s)) g = None
      \<and> guild_voice (snd (leave_channel g True s)) g = None
      \<and> \<not> vc_connected (vc_heap (snd (leave_channel g True s)) v)
      \<and> voice_text_channels (snd (leave_channel g True s)) g = None
      \<and> audio_queue (snd (leave_channel g True s)) g = None)
 \<and> (fst (leave_channel g ok s) = None \<longrightarrow> voice_text_channels (leave_voice g ok s) g = None)"
proof -
  have a: "connected_client s g = None \<longrightarrow> leave_channel g ok s = (None, s)"
    by (simp add: leave_channel_def)
  have b: "connected_client s g = Some v \<longrightarrow> leave_channel g False s = (Some DiscordError, s)"
    by (simp add: leave_channel_def)
  have c: "connected_client s g = Some v \<and> (audio_queue s g = None \<or> playing s g \<noteq> None) \<longrightarrow>
      fst (leave_channel g True s) = None
      \<and> connected_client (snd (leave_channel g True s)) g = None
      \<and> guild_voice (snd (leave_channel g True s)) g = None
      \<and> \<not> vc_connected (vc_heap (snd (leave_channel g True s)) v)
      \<and> voice_text_channels (snd (leave_channel g True s)) g = None
      \<and> audio_queue (snd (leave_channel g True s)) g = None"
    by (auto simp: leave_channel_def disconnect_def end_playback_def connected_client_def Let_def
        split: option.splits)
  have d: "fst (leave_channel g ok s) = None \<longrightarrow> voice_text_channels (leave_voice g ok s) g = None"
    by (auto simp: leave_voice_def split: prod.splits option.splits)
  show ?thesis by (rule conjI [OF a conjI [OF b conjI [OF c d]]])
qed

theorem leave_channel_effects_witness:
  "connected_client (join_voice \<lparr>ch_id = 7, ch_guild = 1\<rparr> 5 True (init_state (\<lambda>g. True) Map.empty)) 1 = Some 0
   \<and> voice_text_channels (join_voice \<lparr>ch_id = 7, ch_guild = 1\<rparr> 5 True (init_state (\<lambda>g. True) Map.empty)) 1 = Some 5
   \<and> fst (leave_channel 1 True (join_voice \<lparr>ch_id = 7, ch_guild = 1\<rparr> 5 True (init_state (\<lambda>g. True) Map.empty))) = None
   \<and> guild_voice (snd (leave_channel 1 True (join_voice \<lparr>ch_id = 7, ch_guild = 1\<rparr> 5 True (init_state (\<lambda>g. True) Map.empty)))) 1 = None
   \<and> voice_text_channels (snd (leave_channel 1 True (join_voice \<lparr>ch_id = 7, ch_guild = 1\<rparr> 5 True (init_state (\<lambda>g. True) Map.empty)))) 1 = None"
proof -
  let ?s = "join_voice \<lparr>ch_id = 7, ch_guild = 1\<rparr> 5 True (init_state (\<lambda>g. True) Map.empty)"
  have h: "connected_client ?s 1 = Some 0" "voice_text_channels ?s 1 = Some 5"
    "audio_queue ?s 1 = None \<or> playing ?s 1 \<noteq> None"
    by (simp_all add: vm_defs)
  from leave_channel_effects [of ?s 1 True 0] h show ?thesis by blast
qed

text \<open>
  The claim as stated fails: a bot that starts with a saved binding for guild 1 and is
  not connected there keeps the binding through \<open>leave_channel\<close>.
\<close>

theorem leave_channel_keeps_binding:
  "connected_client (init_state (\<lambda>g. True) [1 \<mapsto> 5]) 1 = None
   \<and> voice_text_channels (init_state (\<lambda>g. True) [1 \<mapsto> 5]) 1 = Some 5
   \<and> fst (leave_channel 1 True (init_state (\<lambda>g. True) [1 \<mapsto> 5])) = None
   \<and> voice_text_channels (snd (leave_channel 1 True (init_state (\<lambda>g. True) [1 \<mapsto> 5]))) 1 = Some 5"
  by (simp add: vm_defs)

subsection \<open>Worker tasks per guild\<close>

text \<open>
  Claim C1 fails on the code. \<open>join_channel\<close> starts a worker whenever it connects and
  \<open>playing[guild.id]\<close> is false, and nothing ever sets it to true; \<open>leave_channel\<close>
  deletes the queue but does not stop the worker, which stays suspended in its
  \<open>wait_for\<close> on the old queue object. After join, leave, join the guild has two worker
  tasks that have not returned.
\<close>

theorem second_worker_after_leave:
  "length (active_workers
     (run [Join c True, Run 0 m, Leave (ch_guild c) True, Join c True] (init_state gs binds))
     (ch_guild c)) = 2"
  by (simp add: vm_defs)

text \<open>
  Claim C3 fails on the code in its last part. The worker that finds the queue empty
  after 300 time units and again after 10 more returns, but the queue stays registered;
  \<open>play_audio\<close> starts a worker only for a guild without a registered queue, so the next
  job is accepted and waits in a queue that no task drains.
\<close>

theorem no_worker_after_idle_exit:
  "active_workers
     (run [Join c True, Run 0 m, Advance 300, Run 0 m, Advance 10, Run 0 m]
        (init_state gs binds)) (ch_guild c) = []
   \<and> fst (play_audio c d u cok mok
       (run [Join c True, Run 0 m, Advance 300, Run 0 m, Advance 10, Run 0 m]
          (init_state gs binds)))
   \<and> waiting (snd (play_audio c d u cok mok
       (run [Join c True, Run 0 m, Advance 300, Run 0 m, Advance 10, Run 0 m]
          (init_state gs binds)))) (ch_guild c) = [\<lparr>item_data = d, item_source = u\<rparr>]
   \<and> active_workers (snd (play_audio c d u cok mok
       (run [Join c True, Run 0 m, Advance 300, Run 0 m, Advance 10, Run 0 m]
          (init_state gs binds)))) (ch_guild c) = []"
  by (simp add: vm_defs)

subsection \<open>A job taken while the connection is down\<close>

text \<open>
  Claim C4, as the code has it. A worker that takes a job from the guild's registered
  queue while the guild (which the bot knows) has no connected voice client puts the
  job back with \<open>put\<close>, that is behind the jobs that are waiting, plays nothing and
  sleeps 2 time units; once they have passed it is back at the head of its loop.
\<close>

theorem requeue_appends:
  assumes "i < length (tasks s)" and "w_guild (tasks s ! i) = g"
    and "w_pc (tasks s ! i) = WaitGet q t" and "audio_queue s g = Some q"
    and "queue_heap s q = item # rest" and "guilds s g" and "connected_client s g = None"
  shows "waiting (worker_step i m s) g = rest @ [item]
       \<and> w_pc (tasks (worker_step i m s) ! i) = BackoffSleep (now s + 2)
       \<and> played (worker_step i m s) = played s
       \<and> w_pc (tasks (worker_step i m' (apply_event (Advance 2) (worker_step i m s))) ! i)
           = LoopHead"
proof -
  let ?s1 = "s\<lparr>queue_heap := (queue_heap s)(q := rest)\<rparr>"
  let ?s2 = "?s1\<lparr>queue_heap := (queue_heap ?s1)(q := queue_heap ?s1 q @ [item])\<rparr>"
  have c: "connected_client ?s1 g = None"
    using assms(7) connected_client_frame [of ?s1 s g] by simp
  have p: "put g item ?s1 = Some ?s2"
    using assms(4) by (simp add: put_def)
  have h: "handle_item i g item m ?s1 = set_pc i (BackoffSleep (now s + 2)) ?s2"
    using assms(6) c p by (simp add: handle_item_def requeue_def)
  have w: "worker_step i m s = set_pc i (BackoffSleep (now s + 2)) ?s2"
    using assms(1,2,3,5) h by (simp add: worker_step_def Let_def)
  have a: "waiting (worker_step i m s) g = rest @ [item]"
    using assms(4) by (simp add: w waiting_def set_pc_def)
  have b: "w_pc (tasks (worker_step i m s) ! i) = BackoffSleep (now s + 2)"
    using assms(1) by (simp add: w set_pc_def)
  have d: "played (worker_step i m s) = played s"
    by (simp add: w set_pc_def)
  have e: "w_pc (tasks (worker_step i m' (apply_event (Advance 2) (worker_step i m s))) ! i)
           = LoopHead"
    unfolding w using assms(1) by (simp add: set_pc_def worker_step_def Let_def)
  show ?thesis by (rule conjI [OF a conjI [OF b conjI [OF d e]]])
qed

theorem requeue_appends_witness:
  "waiting (run [Join \<lparr>ch_id = 7, ch_guild = 1\<rparr> True, Run 0 True,
      Play \<lparr>ch_id = 7, ch_guild = 1\<rparr> [1] ''ana'' True True, Drop 1, Run 0 True]
      (init_state (\<lambda>g. True) Map.empty)) 1 = [\<lparr>item_data = [1], item_source = ''ana''\<rparr>]
   \<and> w_pc (tasks (run [Join \<lparr>ch_id = 7, ch_guild = 1\<rparr> True, Run 0 True,
      Play \<lparr>ch_id = 7, ch_guild = 1\<rparr> [1] ''ana'' True True, Drop 1, Run 0 True]
      (init_state (\<lambda>g. True) Map.empty)) ! 0) = BackoffSleep 2"
proof -
  let ?s = "run [Join \<lparr>ch_id = 7, ch_guild = 1\<rparr> True, Run 0 True,
      Play \<lparr>ch_id = 7, ch_guild = 1\<rparr> [1] ''ana'' True True, Drop 1]
      (init_state (\<lambda>g. True) Map.empty)"
  have h: "0 < length (tasks ?s)" "w_guild (tasks ?s ! 0) = 1"
    "w_pc (tasks ?s ! 0) = WaitGet 0 300" "audio_queue ?s 1 = Some 0"
    "queue_heap ?s 0 = \<lparr>item_data = [1], item_source = ''ana''\<rparr> # []" "guilds ?s 1"
    "connected_client ?s 1 = None" "now ?s = 0"
    by (simp_all add: vm_defs)
  from requeue_appends [OF h(1-7), of True True] h(8) show ?thesis by simp
qed

text \<open>
  The claim as stated fails: with a second job waiting, the job that was taken and put
  back is behind it, so it is not the next job to play.
\<close>

theorem requeued_job_is_not_next:
  "waiting (run [Join \<lparr>ch_id = 7, ch_guild = 1\<rparr> True, Run 0 True,
      Play \<lparr>ch_id = 7, ch_guild = 1\<rparr> [1] ''ana'' True True,
      Play \<lparr>ch_id = 7, ch_guild = 1\<rparr> [2] ''bea'' True True, Drop 1, Run 0 True]
      (init_state (\<lambda>g. True) Map.empty)) 1
   = [\<lparr>item_data = [2], item_source = ''bea''\<rparr>, \<lparr>item_data = [1], item_source = ''ana''\<rparr>]"
  by (simp add: vm_defs)

section \<open>Properties of the synthesizer adapter\<close>

lemma split_words:
  "w \<in> set (split t) \<Longrightarrow> w \<noteq> [] \<and> (\<forall>c \<in> set w. \<not> is_space c)"
proof (induction t rule: split.induct)
  case 1
  then show ?case by simp
next
  case (2 c cs)
  show ?case
  proof (cases "is_space c")
    case True
    with 2 show ?thesis by simp
  next
    case False
    with "2.prems" have "w = c # takeWhile (\<lambda>x. \<not> is_space x) cs
        \<or> w \<in> set (split (dropWhile (\<lambda>x. \<not> is_space x) cs))"
      by simp
    then show ?thesis
    proof
      assume "w = c # takeWhile (\<lambda>x. \<not> is_space x) cs"
      with False show ?thesis by (auto dest: set_takeWhileD)
    next
      assume "w \<in> set (split (dropWhile (\<lambda>x. \<not> is_space x) cs))"
      with "2.IH"(2) False show ?thesis by blast
    qed
  qed
qed

lemma join_ends:
  assumes "ws \<noteq> []" and "\<forall>w \<in> set ws. w \<noteq> [] \<and> (\<forall>c \<in> set w. \<not> is_space c)"
  shows "join ws \<noteq> [] \<and> \<not> is_space (hd (join ws)) \<and> \<not> is_space (last (join ws))"
  using assms
proof (induction ws rule: join.induct)
  case 1
  then show ?case by simp
next
  case (2 w)
  then show ?case by (simp add: hd_in_set last_in_set)
next
  case (3 w v vs)
  then show ?case by (simp add: hd_in_set)
qed

lemma strip_id:
  assumes "u = [] \<or> (\<not> is_space (hd u) \<and> \<not> is_space (last u))"
  shows "strip u = u"
proof -
  have d: "dropWhile is_space u = u"
    using assms by (auto simp: dropWhile_eq_self_iff)
  have r: "dropWhile is_space (rev u) = rev u"
    using assms by (auto simp: dropWhile_eq_self_iff hd_rev)
  show ?thesis by (simp add: strip_def d r)
qed

lemma collapsed_ends:
  "join (split t) = [] \<or>
   (\<not> is_space (hd (join (split t))) \<and> \<not> is_space (last (join (split t))))"
proof (cases "split t = []")
  case True
  then show ?thesis by simp
next
  case False
  with join_ends [of "split t"] split_words show ?thesis by blast
qed

lemma not_space_dot: "\<not> is_space CHR ''.''"
  by (simp add: is_space_def)

lemma limit_length_ends:
  assumes "u = [] \<or> (\<not> is_space (hd u) \<and> \<not> is_space (last u))"
  shows "limit_length u = [] \<or>
    (\<not> is_space (hd (limit_length u)) \<and> \<not> is_space (last (limit_length u)))"
proof (cases "length u > 500")
  case True
  then have "u \<noteq> []" by auto
  with assms have "\<not> is_space (hd u)" by simp
  moreover from True have "hd (take 500 u @ ''...'') = hd u"
    by (cases u) simp_all
  ultimately show ?thesis using True by (simp add: limit_length_def not_space_dot)
next
  case False
  with assms show ?thesis by (simp add: limit_length_def)
qed

lemma clean_text_eq:
  "clean_text re_sub text = limit_length (join (split (strip_markup re_sub text)))"
  unfolding clean_text_def by (rule strip_id) (rule limit_length_ends, rule collapsed_ends)

lemma split_one_word:
  assumes "w \<noteq> []" and "\<forall>c \<in> set w. \<not> is_space c"
  shows "split w = [w]"
proof (cases w)
  case Nil
  with assms show ?thesis by simp
next
  case (Cons a as)
  with assms have t: "takeWhile (\<lambda>x. \<not> is_space x) as = as"
    and d: "dropWhile (\<lambda>x. \<not> is_space x) as = []"
    by (simp_all add: takeWhile_eq_all_conv)
  from assms Cons show ?thesis by (simp add: t d)
qed

text \<open>
  Claim C8. Whatever the substitutions of \<open>re.sub\<close> return, the cleaned text is the
  sanitized text (markup stripped, white space collapsed) when that has at most 500
  characters, and otherwise its first 500 characters followed by the marker \<open>...\<close>;
  the final \<open>strip()\<close> removes nothing. So the text handed to the provider never has
  more than 500 characters plus the three of the marker.
\<close>

theorem clean_text_truncates:
  "length (clean_text re_sub text) \<le> 503
   \<and> (length (join (split (strip_markup re_sub text))) \<le> 500 \<longrightarrow>
        clean_text re_sub text = join (split (strip_markup re_sub text)))
   \<and> (length (join (split (strip_markup re_sub text))) > 500 \<longrightarrow>
        clean_text re_sub text = take 500 (join (split (strip_markup re_sub text))) @ ''...'')"
  by (simp add: clean_text_eq limit_length_def)

theorem clean_text_truncates_witness:
  "length (strip_markup (\<lambda>p r d t. t) (replicate 600 CHR ''a'')) = 600
   \<and> clean_text (\<lambda>p r d t. t) (replicate 600 CHR ''a'') = replicate 500 CHR ''a'' @ ''...''
   \<and> clean_text (\<lambda>p r d t. t) '' hola   mundo '' = ''hola mundo''"
proof -
  let ?r = "\<lambda>(p :: string) (r :: string) (d :: bool) (t :: string). t"
  have s: "strip_markup ?r = (\<lambda>t. t)"
    by (simp add: strip_markup_def fun_eq_iff)
  have a: "\<not> is_space CHR ''a''" by (simp add: is_space_def)
  have j: "join (split (replicate 600 CHR ''a'')) = replicate 600 CHR ''a''"
    using split_one_word [of "replicate 600 CHR ''a''"] a by simp
  have k: "join (split '' hola   mundo '') = ''hola mundo''"
    by (simp add: is_space_def)
  from clean_text_truncates [of ?r "replicate 600 CHR ''a''"]
    clean_text_truncates [of ?r "'' hola   mundo ''"] s j k
  show ?thesis by simp
qed

text \<open>
  Claim C9. \<open>generate_tts\<close> returns the failure result exactly when the cleaned text is
  empty, the provider's stream raises, or the stream holds no audio bytes; in every
  other case it returns the bytes of the stream's audio chunks, in order.
\<close>

theorem generate_tts_fails_exactly:
  "(generate_tts re_sub stream h text = None \<longleftrightarrow>
      clean_text re_sub text = []
      \<or> (\<exists>e. stream (clean_text re_sub text) (voice h) (rate h) (volume h) = Inl e)
      \<or> (\<exists>chunks. stream (clean_text re_sub text) (voice h) (rate h) (volume h) = Inr chunks
            \<and> audio_of chunks = []))
   \<and> (\<forall>chunks. clean_text re_sub text \<noteq> []
         \<and> stream (clean_text re_sub text) (voice h) (rate h) (volume h) = Inr chunks
         \<and> audio_of chunks \<noteq> []
        \<longrightarrow> generate_tts re_sub stream h text = Some (audio_of chunks))"
  by (cases "stream (clean_text re_sub text) (voice h) (rate h) (volume h)")
     (auto simp: generate_tts_def Let_def)

theorem generate_tts_fails_exactly_witness:
  "generate_tts (\<lambda>p r d t. t)
     (\<lambda>t v r vol. Inr [\<lparr>chunk_type = ''audio'', chunk_data = [1, 2]\<rparr>,
                        \<lparr>chunk_type = ''WordBoundary'', chunk_data = []\<rparr>,
                        \<lparr>chunk_type = ''audio'', chunk_data = [3]\<rparr>])
     \<lparr>voice = ''es-ES-ElviraNeural'', rate = ''+0%'', volume = ''+0%''\<rparr> ''hola''
   = Some [1, 2, 3]"
proof -
  let ?r = "\<lambda>(p :: string) (r :: string) (d :: bool) (t :: string). t"
  let ?cs = "[\<lparr>chunk_type = ''audio'', chunk_data = [1, 2]\<rparr>,
                        \<lparr>chunk_type = ''WordBoundary'', chunk_data = []\<rparr>,
                        \<lparr>chunk_type = ''audio'', chunk_data = [3 :: nat]\<rparr>]"
  let ?s = "\<lambda>(t :: string) (v :: string) (r :: string) (vol :: string).
              Inr ?cs :: tts_error + chunk list"
  let ?h = "\<lparr>voice = ''es-ES-ElviraNeural'', rate = ''+0%'', volume = ''+0%''\<rparr>"
  have c: "clean_text ?r ''hola'' \<noteq> []"
    by (simp add: clean_text_eq strip_markup_def limit_length_def is_space_def)
  have a: "audio_of ?cs = [1, 2, 3]" by (simp add: audio_of_def)
  from generate_tts_fails_exactly [of ?r ?s ?h "''hola''"] c a
  show ?thesis by simp
qed

section \<open>Properties of the text normalizer\<close>

lemma sub_from_no_match:
  "\<not> matches_in p prev s \<Longrightarrow> sub_from p repl prev s = s"
  by (induction s arbitrary: prev) auto

lemma foldl_sub_no_match:
  "\<not> list_ex (\<lambda>(token, reemplazo). matches_in (flexible_pattern_for token) None t) rules \<Longrightarrow>
   foldl (\<lambda>resultado (token, reemplazo).
            sub_from (flexible_pattern_for token) reemplazo None resultado) t rules = t"
  by (induction rules) (auto simp: sub_from_no_match)

lemma autocorregir_unchanged:
  "\<not> matchable t \<Longrightarrow> autocorregir_mensaje t = t"
  unfolding matchable_def autocorregir_mensaje_def by (rule foldl_sub_no_match)

lemma autocorregir_empty: "autocorregir_mensaje [] = []"
  by code_simp

lemma autocorregir_XD: "autocorregir_mensaje ''XD'' = ''X D''"
  by code_simp

lemma autocorregir_X_D: "autocorregir_mensaje ''X D'' = ''X D''"
  by code_simp

text \<open>
  Claim C7. \<open>autocorregir_mensaje\<close> is a function of its argument alone, defined on
  every string. The empty string stays empty; \<open>XD\<close> becomes \<open>X D\<close>, which a second
  application leaves as it is; and a text in which no substitution finds a token, the
  output of the function in particular, is returned unchanged.
\<close>

theorem autocorregir_mensaje_stable:
  "autocorregir_mensaje [] = []
   \<and> autocorregir_mensaje ''XD'' = ''X D''
   \<and> autocorregir_mensaje (autocorregir_mensaje ''XD'') = autocorregir_mensaje ''XD''
   \<and> (\<not> matchable t \<longrightarrow> autocorregir_mensaje t = t)
   \<and> (\<not> matchable (autocorregir_mensaje t) \<longrightarrow>
        autocorregir_mensaje (autocorregir_mensaje t) = autocorregir_mensaje t)"
  by (simp add: autocorregir_empty autocorregir_XD autocorregir_X_D autocorregir_unchanged)

theorem autocorregir_mensaje_stable_witness:
  "\<not> matchable ''ok''
   \<and> autocorregir_mensaje ''ok'' = ''ok''
   \<and> \<not> matchable (autocorregir_mensaje ''omg'')
   \<and> autocorregir_mensaje (autocorregir_mensaje ''omg'') = ''o-em-ge''"
proof -
  have a: "\<not> matchable ''ok''"
    by code_simp
  have b: "autocorregir_mensaje ''omg'' = ''o-em-ge''"
    by code_simp
  have c: "\<not> matchable ''o-em-ge''"
    by code_simp
  from autocorregir_mensaje_stable [of "''ok''"]
    autocorregir_mensaje_stable [of "''omg''"] a b c
  show ?thesis by simp
qed

end
